theory Spec2Isabelle
  imports Complex_Main "HOL-Library.Extended_Nat"
begin

section \<open>The converter of whole-surah recordings into per-ayah files\<close>

text \<open>
  A shallow embedding of \<^verbatim>\<open>convert_to_everyayah.py\<close>. The script reads durations of
  reference recordings (one file per ayah), sums them into start offsets, and cuts the
  whole-surah recording at those offsets with \<^verbatim>\<open>ffmpeg\<close>.

  Everything outside the script is a parameter of the model: the network, \<^verbatim>\<open>ffprobe\<close>
  and \<^verbatim>\<open>ffmpeg\<close> are oracles of an environment, the file system and the logs of what
  was fetched and invoked are a world that every operation passes on. Python's integers are
  \<open>int\<close>. The durations are Python floats; the functions are written over any type with
  \<open>0\<close> and \<open>+\<close>, so what is proved about them without a law of arithmetic holds whatever
  the addition rounds to. What is proved about the order of the offsets assumes of the
  addition only that adding a positive number to a number that is not negative does not
  give a smaller one, which the rounded addition of doubles satisfies. The concrete runs
  are over \<open>real\<close>, where their sums are exact, and one is over \<open>enat\<close>, whose
  \<open>\<infinity>\<close> absorbs what is added to it as a large double does. Two numbers are compared by
  HOL's equality, so a NaN, which Python does not take to be equal to itself, is outside the
  model.
\<close>

subsection \<open>Exceptions, paths, formatting\<close>

datatype error = IndexError | SubprocessError

text \<open>A \<^verbatim>\<open>pathlib.Path\<close> is the list of its components; \<^verbatim>\<open>d / name\<close> appends one.\<close>

type_synonym path = "string list"

definition path_join :: "path \<Rightarrow> string \<Rightarrow> path" where
  "path_join d name = d @ [name]"

text \<open>Python's list indexing: a negative index counts from the end, anything else out of
  range raises \<^verbatim>\<open>IndexError\<close>.\<close>

definition py_index :: "'b list \<Rightarrow> int \<Rightarrow> error + 'b" where
  "py_index xs i =
     (if 0 \<le> i \<and> i < int (length xs) then Inr (xs ! nat i)
      else if i < 0 \<and> - int (length xs) \<le> i then Inr (xs ! nat (int (length xs) + i))
      else Inl IndexError)"

text \<open>The decimal digits of a natural number, most significant first.\<close>

definition digit_char :: "nat \<Rightarrow> char" where
  "digit_char d = ''0123456789'' ! d"

fun digits :: "nat \<Rightarrow> string" where
  "digits n = (if n < 10 then [digit_char n] else digits (n div 10) @ [digit_char (n mod 10)])"

declare digits.simps [simp del]

definition zfill :: "nat \<Rightarrow> string \<Rightarrow> string" where
  "zfill w s = replicate (w - length s) (CHR ''0'') @ s"

text \<open>The format \<^verbatim>\<open>{n:03d}\<close>: zero padding to three characters, the sign counted in.\<close>

definition fmt03 :: "int \<Rightarrow> string" where
  "fmt03 n = (if n < 0 then CHR ''-'' # zfill 2 (digits (nat (- n))) else zfill 3 (digits (nat n)))"

subsection \<open>The table of ayah counts\<close>

definition AYAH_COUNTS :: "int list" where
  "AYAH_COUNTS = [
    7, 286, 200, 176, 120, 165, 206, 75, 129, 109, 123, 111, 43, 52, 99,
    128, 111, 110, 98, 135, 112, 78, 118, 64, 77, 227, 93, 88, 69, 60,
    34, 30, 73, 54, 45, 83, 182, 88, 75, 85, 54, 53, 89, 59, 37, 35, 38,
    29, 18, 45, 60, 49, 62, 55, 78, 96, 29, 22, 24, 13, 14, 11, 11, 18,
    12, 12, 30, 52, 52, 44, 28, 28, 20, 56, 40, 31, 50, 40, 46, 42, 29,
    19, 36, 25, 22, 17, 19, 26, 30, 20, 15, 21, 11, 8, 8, 19, 5, 8, 8,
    11, 11, 8, 3, 9, 5, 4, 7, 3, 6, 3, 5, 4, 5, 6]"

subsection \<open>The converter, its environment and the world\<close>

record converter =
  input_dir :: path
  output_dir :: path
  reference_dir :: path

definition init_converter :: "path \<Rightarrow> path \<Rightarrow> converter" where
  "init_converter inp out =
     \<lparr>input_dir = inp, output_dir = out, reference_dir = [''everyayah_reference_48kbps'']\<rparr>"

text \<open>An argument of a command line: a literal, \<^verbatim>\<open>str\<close> of a path, \<^verbatim>\<open>str\<close> of a number.\<close>

datatype 'a arg = Str string | PathArg path | Num 'a

text \<open>What \<^verbatim>\<open>subprocess.run(..., check=True)\<close> does: it returns, it raises
  \<^verbatim>\<open>CalledProcessError\<close> (the command ran and exited with a non-zero status), or it raises
  another exception (the command could not be run at all, an \<^verbatim>\<open>OSError\<close>).\<close>

datatype run_result = Completed | CalledProcessError | OtherException

text \<open>The oracles: whether \<^verbatim>\<open>urlretrieve\<close> of a URL to a path succeeds; the float that
  \<^verbatim>\<open>ffprobe\<close>'s JSON output yields for a file, \<open>None\<close> when running it or parsing its
  output raises; the outcome of running a command; and whether a command that does not
  complete leaves a file at its output path all the same (\<^verbatim>\<open>ffmpeg -y\<close> may create or
  truncate the file before it fails, and the script never removes it).\<close>

record 'a env =
  urlretrieve :: "string \<Rightarrow> path \<Rightarrow> bool"
  ffprobe :: "path \<Rightarrow> 'a option"
  subprocess_run :: "'a arg list \<Rightarrow> run_result"
  leaves_output :: "'a arg list \<Rightarrow> bool"

text \<open>The world: the files that exist, the URLs requested from the network and the
  \<^verbatim>\<open>ffmpeg\<close> command lines run, both in order. One convention is built in: a download
  that fails leaves no file at its path.\<close>

record 'a world =
  files :: "path set"
  fetched :: "string list"
  invoked :: "'a arg list list"

subsection \<open>Duration probe and reference download\<close>

definition get_audio_duration :: "'a env \<Rightarrow> path \<Rightarrow> 'a option" where
  "get_audio_duration E file_path = ffprobe E file_path"

definition download_reference_ayah ::
  "'a env \<Rightarrow> converter \<Rightarrow> 'a world \<Rightarrow> int \<Rightarrow> int \<Rightarrow> path option \<times> 'a world" where
  "download_reference_ayah E self w surah v =
     (let filename = fmt03 surah @ fmt03 v @ ''.mp3'';
          url = ''https://everyayah.com/data/Parhizgar_48kbps/'' @ filename;
          output_path = path_join (reference_dir self) filename
      in if output_path \<in> files w then (Some output_path, w)
         else if urlretrieve E url output_path
           then (Some output_path,
                 w\<lparr>files := insert output_path (files w), fetched := fetched w @ [url]\<rparr>)
           else (None, w\<lparr>fetched := fetched w @ [url]\<rparr>))"

subsection \<open>The timing resolver\<close>

record 'a timing =
  ayah :: int
  start :: 'a
  duration :: 'a
  finish :: 'a

text \<open>One round of the loop over the ayahs. The state is the list \<^verbatim>\<open>timings\<close>, the
  variable \<^verbatim>\<open>cumulative_time\<close> and the world. The test \<^verbatim>\<open>if duration:\<close> is false for
  \<open>None\<close> and for zero, and true for every other number.\<close>

definition timings_step ::
  "('a::{zero,plus}) env \<Rightarrow> converter \<Rightarrow> int \<Rightarrow> 'a timing list \<times> 'a \<times> 'a world \<Rightarrow> int
     \<Rightarrow> 'a timing list \<times> 'a \<times> 'a world" where
  "timings_step E self surah st v =
     (case st of (timings, cumulative_time, w) \<Rightarrow>
        (case download_reference_ayah E self w surah v of
           (None, w') \<Rightarrow> (timings, cumulative_time, w')
         | (Some ref_file, w') \<Rightarrow>
             (case get_audio_duration E ref_file of
                None \<Rightarrow> (timings, cumulative_time, w')
              | Some d \<Rightarrow>
                  if d \<noteq> 0
                  then (timings @ [\<lparr>ayah = v, start = cumulative_time, duration = d,
                                     finish = cumulative_time + d\<rparr>],
                        cumulative_time + d, w')
                  else (timings, cumulative_time, w'))))"

fun timings_loop ::
  "('a::{zero,plus}) env \<Rightarrow> converter \<Rightarrow> int \<Rightarrow> int list \<Rightarrow> 'a timing list \<times> 'a \<times> 'a world
     \<Rightarrow> 'a timing list \<times> 'a \<times> 'a world" where
  "timings_loop E self surah [] st = st"
| "timings_loop E self surah (v # vs) st =
     timings_loop E self surah vs (timings_step E self surah st v)"

definition get_ayah_timings_from_reference ::
  "('a::{zero,plus}) env \<Rightarrow> converter \<Rightarrow> 'a world \<Rightarrow> int \<Rightarrow> (error + 'a timing list) \<times> 'a world" where
  "get_ayah_timings_from_reference E self w surah =
     (case py_index AYAH_COUNTS (surah - 1) of
        Inl e \<Rightarrow> (Inl e, w)
      | Inr ayah_count \<Rightarrow>
          (case timings_loop E self surah [1..ayah_count] ([], 0, w) of
             (timings, cumulative_time, w') \<Rightarrow> (Inr timings, w')))"

subsection \<open>The segment extractor\<close>

definition output_file_of :: "converter \<Rightarrow> int \<Rightarrow> int \<Rightarrow> path" where
  "output_file_of self surah v = path_join (output_dir self) (fmt03 surah @ fmt03 v @ ''.mp3'')"

definition copy_cmd :: "path \<Rightarrow> 'a timing \<Rightarrow> path \<Rightarrow> 'a arg list" where
  "copy_cmd input_file t output_file =
     [Str ''ffmpeg'', Str ''-y'', Str ''-i'', PathArg input_file,
      Str ''-ss'', Num (start t), Str ''-t'', Num (duration t),
      Str ''-c'', Str ''copy'', PathArg output_file]"

definition reencode_cmd :: "path \<Rightarrow> 'a timing \<Rightarrow> path \<Rightarrow> 'a arg list" where
  "reencode_cmd input_file t output_file =
     [Str ''ffmpeg'', Str ''-y'', Str ''-i'', PathArg input_file,
      Str ''-ss'', Num (start t), Str ''-t'', Num (duration t),
      Str ''-c:a'', Str ''libmp3lame'', Str ''-b:a'', Str ''128k'', PathArg output_file]"

text \<open>Running a command is logged. A command that completes has written its last argument,
  the output file; whether one that does not complete leaves a file there is for the
  environment to say.\<close>

definition run_cmd :: "'a env \<Rightarrow> 'a world \<Rightarrow> 'a arg list \<Rightarrow> path \<Rightarrow> run_result \<times> 'a world" where
  "run_cmd E w cmd output_file =
     (case subprocess_run E cmd of
        Completed \<Rightarrow>
          (Completed, w\<lparr>files := insert output_file (files w), invoked := invoked w @ [cmd]\<rparr>)
      | r \<Rightarrow>
          (r, w\<lparr>files := (if leaves_output E cmd then insert output_file (files w) else files w),
                 invoked := invoked w @ [cmd]\<rparr>))"

text \<open>The body of the loop over the timings. The first \<^verbatim>\<open>try\<close> catches
  \<^verbatim>\<open>CalledProcessError\<close> only, so another exception of the copy command leaves the loop
  and the function; the second \<^verbatim>\<open>try\<close> catches every \<^verbatim>\<open>Exception\<close>.\<close>

definition extract_ayah ::
  "'a env \<Rightarrow> converter \<Rightarrow> int \<Rightarrow> path \<Rightarrow> 'a world \<Rightarrow> 'a timing \<Rightarrow> (error + unit) \<times> 'a world" where
  "extract_ayah E self surah input_file w t =
     (let output_file = output_file_of self surah (ayah t)
      in case run_cmd E w (copy_cmd input_file t output_file) output_file of
           (Completed, w1) \<Rightarrow> (Inr (), w1)
         | (CalledProcessError, w1) \<Rightarrow>
             (case run_cmd E w1 (reencode_cmd input_file t output_file) output_file of
                (r, w2) \<Rightarrow> (Inr (), w2))
         | (OtherException, w1) \<Rightarrow> (Inl SubprocessError, w1))"

fun extract_loop ::
  "'a env \<Rightarrow> converter \<Rightarrow> int \<Rightarrow> path \<Rightarrow> 'a timing list \<Rightarrow> 'a world \<Rightarrow> (error + unit) \<times> 'a world" where
  "extract_loop E self surah input_file [] w = (Inr (), w)"
| "extract_loop E self surah input_file (t # ts) w =
     (case extract_ayah E self surah input_file w t of
        (Inl e, w') \<Rightarrow> (Inl e, w')
      | (Inr u, w') \<Rightarrow> extract_loop E self surah input_file ts w')"

definition split_surah ::
  "('a::{zero,plus}) env \<Rightarrow> converter \<Rightarrow> 'a world \<Rightarrow> int \<Rightarrow> (error + bool) \<times> 'a world" where
  "split_surah E self w surah =
     (let input_file = path_join (input_dir self) (fmt03 surah @ ''.mp3'')
      in if input_file \<notin> files w then (Inr False, w)
         else
           (case get_ayah_timings_from_reference E self w surah of
              (Inl e, w1) \<Rightarrow> (Inl e, w1)
            | (Inr timings, w1) \<Rightarrow>
                if timings = [] then (Inr False, w1)
                else
                  (case extract_loop E self surah input_file timings w1 of
                     (Inl e, w2) \<Rightarrow> (Inl e, w2)
                   | (Inr u, w2) \<Rightarrow> (Inr True, w2))))"

subsection \<open>The orchestrator\<close>

fun convert_loop ::
  "('a::{zero,plus}) env \<Rightarrow> converter \<Rightarrow> 'a world \<Rightarrow> int list \<Rightarrow> (error + unit) \<times> 'a world" where
  "convert_loop E self w [] = (Inr (), w)"
| "convert_loop E self w (surah # rest) =
     (case split_surah E self w surah of
        (Inl e, w') \<Rightarrow> (Inl e, w')
      | (Inr b, w') \<Rightarrow> convert_loop E self w' rest)"

definition convert_all ::
  "('a::{zero,plus}) env \<Rightarrow> converter \<Rightarrow> 'a world \<Rightarrow> int \<Rightarrow> int \<Rightarrow> (error + unit) \<times> 'a world" where
  "convert_all E self w start_surah end_surah =
     convert_loop E self w [start_surah..end_surah]"

subsection \<open>Names for what the functions compute locally\<close>

text \<open>The cache path and the URL of a reference recording, as \<^verbatim>\<open>download_reference_ayah\<close>
  builds them.\<close>

definition reference_path :: "converter \<Rightarrow> int \<Rightarrow> int \<Rightarrow> path" where
  "reference_path self surah v = path_join (reference_dir self) (fmt03 surah @ fmt03 v @ ''.mp3'')"

definition reference_url :: "int \<Rightarrow> int \<Rightarrow> string" where
  "reference_url surah v = ''https://everyayah.com/data/Parhizgar_48kbps/'' @ fmt03 surah @ fmt03 v @ ''.mp3''"

text \<open>The download of the reference recording of an ayah fails, or the probe of its
  duration does, in a given world.\<close>

definition verse_fails :: "'a env \<Rightarrow> converter \<Rightarrow> 'a world \<Rightarrow> int \<Rightarrow> int \<Rightarrow> bool" where
  "verse_fails E self w surah v =
     (case download_reference_ayah E self w surah v of
        (None, w') \<Rightarrow> True
      | (Some ref_file, w') \<Rightarrow>
          (case get_audio_duration E ref_file of None \<Rightarrow> True | Some d \<Rightarrow> False))"

subsection \<open>Invariants of the resolver's loop\<close>

text \<open>Each record ends where the next one starts, and the last one ends at
  \<^verbatim>\<open>cumulative_time\<close>.\<close>

definition chained :: "('a::{zero,plus}) timing list \<times> 'a \<times> 'a world \<Rightarrow> bool" where
  "chained st = (case st of (ts, c, w) \<Rightarrow>
     (\<forall>i. Suc i < length ts \<longrightarrow> finish (ts ! i) = start (ts ! Suc i)) \<and>
     (ts \<noteq> [] \<longrightarrow> finish (last ts) = c))"

text \<open>For numbers with an order: the records have positive durations and start offsets
  that are not negative, do not decrease, and stay at or below \<^verbatim>\<open>cumulative_time\<close>.\<close>

definition ordered :: "('a::{zero,plus,order}) timing list \<times> 'a \<times> 'a world \<Rightarrow> bool" where
  "ordered st = (case st of (ts, c, w) \<Rightarrow>
     0 \<le> c \<and> (\<forall>t \<in> set ts. 0 < duration t \<and> 0 \<le> start t \<and> start t \<le> c) \<and>
     (\<forall>i. Suc i < length ts \<longrightarrow> start (ts ! i) \<le> start (ts ! Suc i)))"

subsection \<open>Concrete runs\<close>

text \<open>Surah 108 has three ayahs. The converter is the one the script builds by default. In
  the first world only the recording of the surah exists; in the second the three reference
  recordings are in the cache too.\<close>

definition demo_converter :: converter where
  "demo_converter = init_converter [''input_surahs''] [''Parhizgar_128kbps'']"

definition demo_input :: path where
  "demo_input = [''input_surahs'', ''108.mp3'']"

definition demo_world :: "real world" where
  "demo_world = \<lparr>files = {[''input_surahs'', ''108.mp3'']}, fetched = [], invoked = []\<rparr>"

definition cached_world :: "real world" where
  "cached_world = \<lparr>files = {[''input_surahs'', ''108.mp3''],
                              [''everyayah_reference_48kbps'', ''108001.mp3''],
                              [''everyayah_reference_48kbps'', ''108002.mp3''],
                              [''everyayah_reference_48kbps'', ''108003.mp3'']},
                     fetched = [], invoked = []\<rparr>"

text \<open>A record of two seconds for an ayah, starting at a given offset.\<close>

definition demo_timing :: "int \<Rightarrow> real \<Rightarrow> real timing" where
  "demo_timing v s = \<lparr>ayah = v, start = s, duration = 2, finish = s + 2\<rparr>"

text \<open>Environments. In all of them every download succeeds, every reference recording lasts
  two seconds, every command completes and a command that does not complete leaves no file,
  but for what their description says.\<close>

definition demo_env :: "real env" where
  "demo_env = \<lparr>urlretrieve = (\<lambda>url p. True), ffprobe = (\<lambda>p. Some 2),
                subprocess_run = (\<lambda>cmd. Completed), leaves_output = (\<lambda>cmd. False)\<rparr>"

text \<open>The probe reports \<open>-1\<close> second for every file.\<close>

definition backwards_env :: "real env" where
  "backwards_env = \<lparr>urlretrieve = (\<lambda>url p. True), ffprobe = (\<lambda>p. Some (- 1)),
                     subprocess_run = (\<lambda>cmd. Completed), leaves_output = (\<lambda>cmd. False)\<rparr>"

text \<open>The probe reports zero seconds for the second reference recording of surah 108.\<close>

definition zero_env :: "real env" where
  "zero_env = \<lparr>urlretrieve = (\<lambda>url p. True),
                ffprobe = (\<lambda>p. if p = [''everyayah_reference_48kbps'', ''108002.mp3'']
                               then Some 0 else Some 2),
                subprocess_run = (\<lambda>cmd. Completed), leaves_output = (\<lambda>cmd. False)\<rparr>"

text \<open>The download of the second reference recording of surah 108 fails.\<close>

definition gap_env :: "real env" where
  "gap_env = \<lparr>urlretrieve = (\<lambda>url p. url \<noteq> ''https://everyayah.com/data/Parhizgar_48kbps/108002.mp3''),
               ffprobe = (\<lambda>p. Some 2), subprocess_run = (\<lambda>cmd. Completed), leaves_output = (\<lambda>cmd. False)\<rparr>"

text \<open>The probe reports 3.0, 2.5 and 4.0 seconds for the three reference recordings of
  surah 108.\<close>

definition three_env :: "real env" where
  "three_env = \<lparr>urlretrieve = (\<lambda>url p. True),
                 ffprobe = (\<lambda>p. if p = [''everyayah_reference_48kbps'', ''108001.mp3''] then Some 3
                                else if p = [''everyayah_reference_48kbps'', ''108002.mp3''] then Some 2.5
                                else Some 4),
                 subprocess_run = (\<lambda>cmd. Completed), leaves_output = (\<lambda>cmd. False)\<rparr>"

text \<open>Every probe fails.\<close>

definition mute_env :: "real env" where
  "mute_env = \<lparr>urlretrieve = (\<lambda>url p. True), ffprobe = (\<lambda>p. None),
                subprocess_run = (\<lambda>cmd. Completed), leaves_output = (\<lambda>cmd. False)\<rparr>"

text \<open>The copy command cannot be run at all: running it raises an exception that is not a
  \<^verbatim>\<open>CalledProcessError\<close>.\<close>

definition broken_env :: "real env" where
  "broken_env = \<lparr>urlretrieve = (\<lambda>url p. True), ffprobe = (\<lambda>p. Some 2),
                  subprocess_run = (\<lambda>cmd. OtherException), leaves_output = (\<lambda>cmd. False)\<rparr>"

text \<open>The copy command exits with a non-zero status, and it is the re-encoding command that
  cannot be run.\<close>

definition reencode_broken_env :: "real env" where
  "reencode_broken_env =
     \<lparr>urlretrieve = (\<lambda>url p. True), ffprobe = (\<lambda>p. Some 2),
      subprocess_run = (\<lambda>cmd. if Str ''copy'' \<in> set cmd then CalledProcessError else OtherException),
      leaves_output = (\<lambda>cmd. False)\<rparr>"

text \<open>Over the extended natural numbers: the first reference recording has a duration so
  large that adding to it changes nothing, the others last one second. An addition of
  doubles behaves so from \<^verbatim>\<open>1e16 + 1.0\<close> on.\<close>

definition absorbing_env :: "enat env" where
  "absorbing_env =
     \<lparr>urlretrieve = (\<lambda>url p. True),
      ffprobe = (\<lambda>p. if p = [''everyayah_reference_48kbps'', ''108001.mp3''] then Some \<infinity> else Some 1),
      subprocess_run = (\<lambda>cmd. Completed), leaves_output = (\<lambda>cmd. False)\<rparr>"

definition absorbing_world :: "enat world" where
  "absorbing_world = \<lparr>files = {[''input_surahs'', ''108.mp3'']}, fetched = [], invoked = []\<rparr>"

section \<open>Properties\<close>

subsection \<open>Values of the concrete runs\<close>

lemma fmt03_108: "fmt03 108 = ''108''" by code_simp
lemma fmt03_1: "fmt03 1 = ''001''" by code_simp
lemma fmt03_2: "fmt03 2 = ''002''" by code_simp
lemma fmt03_3: "fmt03 3 = ''003''" by code_simp
lemma count_108: "py_index AYAH_COUNTS 107 = Inr 3"
  by (simp add: py_index_def AYAH_COUNTS_def)

lemma fmt03_107: "fmt03 107 = ''107''" by code_simp

lemma reference_path_demo:
  "reference_path demo_converter 108 1 = [''everyayah_reference_48kbps'', ''108001.mp3'']"
  "reference_path demo_converter 108 2 = [''everyayah_reference_48kbps'', ''108002.mp3'']"
  "reference_path demo_converter 108 3 = [''everyayah_reference_48kbps'', ''108003.mp3'']"
  by (simp_all add: reference_path_def demo_converter_def init_converter_def path_join_def
      fmt03_108 fmt03_1 fmt03_2 fmt03_3)

lemma output_file_demo:
  "output_file_of demo_converter 108 1 = [''Parhizgar_128kbps'', ''108001.mp3'']"
  "output_file_of demo_converter 108 2 = [''Parhizgar_128kbps'', ''108002.mp3'']"
  "output_file_of demo_converter 108 3 = [''Parhizgar_128kbps'', ''108003.mp3'']"
  by (simp_all add: output_file_of_def demo_converter_def init_converter_def path_join_def
      fmt03_108 fmt03_1 fmt03_2 fmt03_3)

lemma upto_1_3: "v \<in> {1..3} \<Longrightarrow> v = 1 \<or> v = 2 \<or> v = (3::int)"
  by auto

lemma three_env_probe:
  "get_audio_duration three_env (reference_path demo_converter 108 1) = Some 3.0"
  "get_audio_duration three_env (reference_path demo_converter 108 2) = Some 2.5"
  "get_audio_duration three_env (reference_path demo_converter 108 3) = Some 4.0"
  by (simp_all add: get_audio_duration_def three_env_def reference_path_demo)

lemma cached_timings:
  "ffprobe E = (\<lambda>p. Some 2) \<Longrightarrow>
   get_ayah_timings_from_reference E demo_converter cached_world 108 =
     (Inr [demo_timing 1 0, demo_timing 2 2, demo_timing 3 4], cached_world)"
  by (simp add: get_ayah_timings_from_reference_def count_108 upto.simps
        timings_step_def download_reference_ayah_def get_audio_duration_def
        demo_converter_def cached_world_def init_converter_def path_join_def Let_def
        fmt03_108 fmt03_1 fmt03_2 fmt03_3 demo_timing_def)

subsection \<open>The table of ayah counts\<close>

lemma length_AYAH_COUNTS: "length AYAH_COUNTS = 114"
  by (simp add: AYAH_COUNTS_def)

lemma AYAH_COUNTS_bounds: "\<forall>n \<in> set AYAH_COUNTS. 3 \<le> n \<and> n \<le> 286"
  by (simp add: AYAH_COUNTS_def)

lemma py_index_in_set: "py_index xs i = Inr x \<Longrightarrow> x \<in> set xs"
  by (auto simp: py_index_def split: if_splits)

lemma ayah_count_bounds:
  assumes "py_index AYAH_COUNTS (surah - 1) = Inr N"
  shows "3 \<le> N" and "N \<le> 286"
  using py_index_in_set[OF assms] AYAH_COUNTS_bounds by auto

text \<open>
  Claim C10. The table has 114 entries, all positive. The index \<open>surah - 1\<close> lies inside
  the table exactly for \<open>1 \<le> surah \<le> 114\<close>, and there the lookup gives the entry of that
  surah. For surah 0 the index is \<open>-1\<close>: the lookup does not raise, it gives the last
  entry, the count of surah 114.
\<close>

theorem table_and_lookup:
  "length AYAH_COUNTS = 114 \<and> (\<forall>n \<in> set AYAH_COUNTS. 0 < n) \<and>
   (\<forall>surah. (0 \<le> surah - 1 \<and> surah - 1 < int (length AYAH_COUNTS)) = (1 \<le> surah \<and> surah \<le> 114)) \<and>
   (\<forall>surah. 1 \<le> surah \<and> surah \<le> 114 \<longrightarrow>
      py_index AYAH_COUNTS (surah - 1) = Inr (AYAH_COUNTS ! nat (surah - 1))) \<and>
   py_index AYAH_COUNTS (0 - 1) = Inr (last AYAH_COUNTS) \<and>
   py_index AYAH_COUNTS (0 - 1) = py_index AYAH_COUNTS (114 - 1) \<and>
   last AYAH_COUNTS = 6"
proof -
  have 1: "length AYAH_COUNTS = 114" by (rule length_AYAH_COUNTS)
  have 2: "\<forall>n \<in> set AYAH_COUNTS. 0 < n" using AYAH_COUNTS_bounds by force
  have 3: "\<forall>surah. (0 \<le> surah - 1 \<and> surah - 1 < int (length AYAH_COUNTS)) = (1 \<le> surah \<and> surah \<le> 114)"
    by (auto simp: 1)
  have 4: "\<forall>surah. 1 \<le> surah \<and> surah \<le> 114 \<longrightarrow>
      py_index AYAH_COUNTS (surah - 1) = Inr (AYAH_COUNTS ! nat (surah - 1))"
    by (simp add: py_index_def 1)
  have 5: "last AYAH_COUNTS = 6" by (simp add: AYAH_COUNTS_def)
  have 6: "py_index AYAH_COUNTS (0 - 1) = Inr 6" by (simp add: py_index_def AYAH_COUNTS_def)
  have 7: "py_index AYAH_COUNTS (114 - 1) = Inr 6" by (simp add: py_index_def AYAH_COUNTS_def)
  from 1 2 3 4 5 6 7 show ?thesis by simp
qed

theorem table_and_lookup_witness:
  "1 \<le> (2::int) \<and> (2::int) \<le> 114 \<and> py_index AYAH_COUNTS (2 - 1) = Inr 286 \<and>
   (286::int) \<in> set AYAH_COUNTS \<and> (0::int) < 286"
proof -
  from table_and_lookup
  have "\<forall>surah. 1 \<le> surah \<and> surah \<le> 114 \<longrightarrow>
          py_index AYAH_COUNTS (surah - 1) = Inr (AYAH_COUNTS ! nat (surah - 1))"
    by (elim conjE)
  then have "py_index AYAH_COUNTS (2 - 1) = Inr (AYAH_COUNTS ! nat (2 - 1))"
    by (drule_tac x = 2 in spec) simp
  moreover have "AYAH_COUNTS ! nat (2 - 1) = 286" "(286::int) \<in> set AYAH_COUNTS"
    by (simp_all add: AYAH_COUNTS_def)
  ultimately show ?thesis by simp
qed

subsection \<open>File names\<close>

lemma digit_char_0: "digit_char 0 = CHR ''0''"
  by (simp add: digit_char_def)

lemma fmt03_3digits:
  assumes "0 \<le> n" "n < 1000"
  shows "fmt03 n = [digit_char (nat n div 100), digit_char (nat n div 10 mod 10), digit_char (nat n mod 10)]"
proof -
  define m where "m = nat n"
  have m: "m < 1000" using assms by (simp add: m_def)
  have "zfill 3 (digits m) = [digit_char (m div 100), digit_char (m div 10 mod 10), digit_char (m mod 10)]"
  proof (cases "m < 10")
    case True
    then show ?thesis by (simp add: digits.simps zfill_def digit_char_0 numeral_3_eq_3)
  next
    case False
    note nf = this
    show ?thesis
    proof (cases "m < 100")
      case True
      then have "m div 10 < 10" by simp
      with nf True show ?thesis
        by (simp add: digits.simps[of m] digits.simps[of "m div 10"] zfill_def digit_char_0 numeral_3_eq_3)
    next
      case False
      then have a: "\<not> m div 10 < 10" by simp
      have b: "m div 10 div 10 < 10" using m by simp
      have c: "m div 10 div 10 = m div 100" by (simp add: div_mult2_eq)
      from nf a b c show ?thesis
        by (simp add: digits.simps[of m] digits.simps[of "m div 10"] digits.simps[of "m div 100"] zfill_def)
    qed
  qed
  then show ?thesis using assms by (simp add: fmt03_def m_def)
qed

lemma digit_char_code:
  assumes "x < 10"
  shows "(of_char (digit_char x) :: nat) = 48 + x"
proof -
  from assms have "x = 0 \<or> x = 1 \<or> x = 2 \<or> x = 3 \<or> x = 4 \<or> x = 5 \<or> x = 6 \<or> x = 7 \<or> x = 8 \<or> x = 9"
    by arith
  then show ?thesis by (elim disjE) (simp_all add: digit_char_def)
qed

lemma digit_char_inj:
  assumes "x < 10" "y < 10" "digit_char x = digit_char y"
  shows "x = y"
proof -
  have "(of_char (digit_char x) :: nat) = of_char (digit_char y)" using assms(3) by simp
  then show ?thesis using assms(1,2) by (simp add: digit_char_code)
qed

lemma fmt03_inj:
  assumes a: "0 \<le> a" "a < 1000" and b: "0 \<le> b" "b < 1000" and eq: "fmt03 a = fmt03 b"
  shows "a = b"
proof -
  define m where "m = nat a"
  define n where "n = nat b"
  have m: "m < 1000" and n: "n < 1000" using a b by (simp_all add: m_def n_def)
  from eq have "digit_char (m div 100) = digit_char (n div 100)"
    "digit_char (m div 10 mod 10) = digit_char (n div 10 mod 10)"
    "digit_char (m mod 10) = digit_char (n mod 10)"
    using a b by (simp_all add: fmt03_3digits m_def n_def)
  moreover have "m div 100 < 10" "n div 100 < 10" using m n by simp_all
  ultimately have "m div 100 = n div 100" "m div 10 mod 10 = n div 10 mod 10" "m mod 10 = n mod 10"
    by (auto intro: digit_char_inj)
  then have h: "m div 10 div 10 = n div 10 div 10" "m div 10 mod 10 = n div 10 mod 10"
      "m mod 10 = n mod 10"
    by (simp_all add: div_mult2_eq[symmetric])
  have "m div 10 = n div 10"
    using h(1,2) by (metis div_mult_mod_eq)
  then have "m = n"
    using h(3) by (metis div_mult_mod_eq)
  then show ?thesis using a b by (simp add: m_def n_def)
qed

lemma reference_path_inj:
  assumes "0 \<le> a" "a < 1000" "0 \<le> b" "b < 1000"
    and "reference_path self surah a = reference_path self surah b"
  shows "a = b"
proof -
  from assms(5) have "fmt03 a = fmt03 b"
    by (simp add: reference_path_def path_join_def)
  with assms(1-4) show ?thesis by (rule fmt03_inj)
qed

subsection \<open>The reference download\<close>

lemma download_reference_ayah_eq:
  "download_reference_ayah E self w surah v =
     (if reference_path self surah v \<in> files w then (Some (reference_path self surah v), w)
      else if urlretrieve E (reference_url surah v) (reference_path self surah v)
        then (Some (reference_path self surah v),
              w\<lparr>files := insert (reference_path self surah v) (files w),
                fetched := fetched w @ [reference_url surah v]\<rparr>)
        else (None, w\<lparr>fetched := fetched w @ [reference_url surah v]\<rparr>))"
  by (simp add: download_reference_ayah_def reference_path_def reference_url_def Let_def)

lemma download_files_mono: "files w \<subseteq> files (snd (download_reference_ayah E self w surah v))"
  by (auto simp: download_reference_ayah_eq)

lemma download_invoked: "invoked (snd (download_reference_ayah E self w surah v)) = invoked w"
  by (simp add: download_reference_ayah_eq)

lemma download_cached:
  "reference_path self surah v \<in> files w \<Longrightarrow>
   download_reference_ayah E self w surah v = (Some (reference_path self surah v), w)"
  by (simp add: download_reference_ayah_eq)

lemma download_files_cases:
  "files (snd (download_reference_ayah E self w surah v)) = files w \<or>
   files (snd (download_reference_ayah E self w surah v)) = insert (reference_path self surah v) (files w)"
  by (simp add: download_reference_ayah_eq)

lemma download_ffprobe_update:
  "download_reference_ayah (E\<lparr>ffprobe := f\<rparr>) self w surah v = download_reference_ayah E self w surah v"
  by (simp add: download_reference_ayah_def Let_def)

subsection \<open>The rounds of the resolver's loop\<close>

lemma timings_step_cases:
  obtains (skip)
      "timings_step E self surah (ts, c, w) v =
         (ts, c, snd (download_reference_ayah E self w surah v))"
  | (append) p d where
      "fst (download_reference_ayah E self w surah v) = Some p"
      "get_audio_duration E p = Some d" "d \<noteq> 0"
      "timings_step E self surah (ts, c, w) v =
         (ts @ [\<lparr>ayah = v, start = c, duration = d, finish = c + d\<rparr>], c + d,
          snd (download_reference_ayah E self w surah v))"
proof -
  obtain r w1 where dl: "download_reference_ayah E self w surah v = (r, w1)"
    by (cases "download_reference_ayah E self w surah v") auto
  show thesis
  proof (cases r)
    case None
    with dl show thesis by (intro skip) (simp add: timings_step_def)
  next
    case (Some p)
    show thesis
    proof (cases "get_audio_duration E p")
      case None
      with dl Some show thesis by (intro skip) (simp add: timings_step_def)
    next
      case (Some d)
      show thesis
      proof (cases "d = 0")
        case True
        with dl \<open>r = Some p\<close> Some show thesis
          by (intro skip) (simp add: timings_step_def)
      next
        case False
        with dl \<open>r = Some p\<close> Some show thesis
          by (intro append[of p d]) (simp_all add: timings_step_def)
      qed
    qed
  qed
qed

lemma timings_step_eq:
  "timings_step E self surah (ts, c, w) v =
     (case fst (download_reference_ayah E self w surah v) of
        None \<Rightarrow> (ts, c, snd (download_reference_ayah E self w surah v))
      | Some p \<Rightarrow>
          (case get_audio_duration E p of
             None \<Rightarrow> (ts, c, snd (download_reference_ayah E self w surah v))
           | Some d \<Rightarrow>
               if d \<noteq> 0
               then (ts @ [\<lparr>ayah = v, start = c, duration = d, finish = c + d\<rparr>], c + d,
                     snd (download_reference_ayah E self w surah v))
               else (ts, c, snd (download_reference_ayah E self w surah v))))"
  by (simp add: timings_step_def split: prod.splits option.splits)

lemma timings_step_world:
  "snd (snd (timings_step E self surah (ts, c, w) v)) = snd (download_reference_ayah E self w surah v)"
  by (cases rule: timings_step_cases[of E self surah ts c w v]) simp_all

lemma timings_step_length:
  "length (fst (timings_step E self surah (ts, c, w) v)) \<le> Suc (length ts)"
  by (cases rule: timings_step_cases[of E self surah ts c w v]) simp_all

lemma timings_step_success:
  assumes "reference_path self surah v \<in> files w \<or>
           urlretrieve E (reference_url surah v) (reference_path self surah v)"
    and "get_audio_duration E (reference_path self surah v) = Some d" and "d \<noteq> 0"
  shows "timings_step E self surah (ts, c, w) v =
           (ts @ [\<lparr>ayah = v, start = c, duration = d, finish = c + d\<rparr>], c + d,
            snd (download_reference_ayah E self w surah v))"
  using assms by (auto simp: timings_step_eq download_reference_ayah_eq)

lemma verse_fails_step:
  assumes "verse_fails E self w surah v"
  shows "timings_step E self surah (ts, c, w) v = (ts, c, snd (download_reference_ayah E self w surah v))"
  using assms by (auto simp: verse_fails_def timings_step_eq split: prod.splits option.splits)

lemma timings_loop_append:
  "timings_loop E self surah (xs @ ys) st = timings_loop E self surah ys (timings_loop E self surah xs st)"
  by (induction xs arbitrary: st) simp_all

lemma timings_loop_invariant:
  assumes "P st" and "\<And>ts c w v. P (ts, c, w) \<Longrightarrow> P (timings_step E self surah (ts, c, w) v)"
  shows "P (timings_loop E self surah vs st)"
  using assms(1)
proof (induction vs arbitrary: st)
  case Nil
  then show ?case by simp
next
  case (Cons v vs)
  obtain ts c w where st: "st = (ts, c, w)" by (cases st) auto
  from Cons.prems have "P (timings_step E self surah st v)" unfolding st by (rule assms(2))
  then show ?case by (simp add: Cons.IH)
qed

lemma timings_loop_length:
  "length (fst (timings_loop E self surah vs st)) \<le> length (fst st) + length vs"
proof (induction vs arbitrary: st)
  case Nil
  then show ?case by simp
next
  case (Cons v vs)
  obtain ts c w where st: "st = (ts, c, w)" by (cases st) auto
  have "length (fst (timings_loop E self surah vs (timings_step E self surah st v)))
        \<le> length (fst (timings_step E self surah st v)) + length vs"
    by (rule Cons.IH)
  also have "\<dots> \<le> Suc (length ts) + length vs"
    using timings_step_length[of E self surah ts c w v] by (simp add: st)
  finally show ?case by (simp add: st)
qed

lemma timings_loop_prefix:
  "\<exists>more. fst (timings_loop E self surah vs (ts, c, w)) = ts @ more"
proof (induction vs arbitrary: ts c w)
  case Nil
  then show ?case by simp
next
  case (Cons v vs)
  show ?case
  proof (cases rule: timings_step_cases[of E self surah ts c w v])
    case skip
    with Cons.IH[of ts c] show ?thesis by simp
  next
    case (append p d)
    with Cons.IH[of "ts @ [\<lparr>ayah = v, start = c, duration = d, finish = c + d\<rparr>]" "c + d"]
    show ?thesis by auto
  qed
qed

lemma timings_loop_ayahs:
  "ayah ` set (fst (timings_loop E self surah vs (ts, c, w))) \<subseteq> ayah ` set ts \<union> set vs"
proof (induction vs arbitrary: ts c w)
  case Nil
  then show ?case by simp
next
  case (Cons v vs)
  show ?case
  proof (cases rule: timings_step_cases[of E self surah ts c w v])
    case skip
    with Cons.IH[of ts c] show ?thesis by auto
  next
    case (append p d)
    with Cons.IH[of "ts @ [\<lparr>ayah = v, start = c, duration = d, finish = c + d\<rparr>]" "c + d"]
    show ?thesis by auto
  qed
qed

lemma timings_loop_nonzero:
  assumes "\<forall>t \<in> set ts. duration t \<noteq> 0"
  shows "\<forall>t \<in> set (fst (timings_loop E self surah vs (ts, c, w))). duration t \<noteq> 0"
  using assms
proof (induction vs arbitrary: ts c w)
  case Nil
  then show ?case by simp
next
  case (Cons v vs)
  show ?case
  proof (cases rule: timings_step_cases[of E self surah ts c w v])
    case skip
    with Cons show ?thesis by simp
  next
    case (append p d)
    with Cons.prems
    have "\<forall>t \<in> set (ts @ [\<lparr>ayah = v, start = c, duration = d, finish = c + d\<rparr>]). duration t \<noteq> 0"
      by simp
    from Cons.IH[OF this] append show ?thesis by simp
  qed
qed

lemma timings_loop_cached:
  assumes "\<forall>v \<in> set vs. reference_path self surah v \<in> files w"
  shows "snd (snd (timings_loop E self surah vs (ts, c, w))) = w"
  using assms
proof (induction vs arbitrary: ts c)
  case Nil
  then show ?case by simp
next
  case (Cons v vs)
  then have "download_reference_ayah E self w surah v = (Some (reference_path self surah v), w)"
    by (simp add: download_cached)
  then obtain ts1 c1 where "timings_step E self surah (ts, c, w) v = (ts1, c1, w)"
    by (cases rule: timings_step_cases[of E self surah ts c w v]) simp_all
  with Cons show ?case by simp
qed

lemma timings_loop_same_cache:
  assumes "\<forall>v \<in> set vs. (reference_path self surah v \<in> files w) = (reference_path self surah v \<in> files w')"
  shows "fst (timings_loop E self surah vs (ts, c, w)) = fst (timings_loop E self surah vs (ts, c, w')) \<and>
         fst (snd (timings_loop E self surah vs (ts, c, w))) =
         fst (snd (timings_loop E self surah vs (ts, c, w')))"
  using assms
proof (induction vs arbitrary: ts c w w')
  case Nil
  then show ?case by simp
next
  case (Cons v vs)
  let ?d = "download_reference_ayah E self w surah v"
  let ?d' = "download_reference_ayah E self w' surah v"
  from Cons.prems
  have here: "(reference_path self surah v \<in> files w) = (reference_path self surah v \<in> files w')"
    by simp
  then have res: "fst ?d = fst ?d'"
    by (simp add: download_reference_ayah_eq)
  have later: "\<forall>u \<in> set vs. (reference_path self surah u \<in> files (snd ?d)) =
                              (reference_path self surah u \<in> files (snd ?d'))"
    using Cons.prems here by (auto simp: download_reference_ayah_eq)
  obtain ts1 c1 where s1: "timings_step E self surah (ts, c, w) v = (ts1, c1, snd ?d)"
    using timings_step_world[of E self surah ts c w v]
    by (cases "timings_step E self surah (ts, c, w) v") auto
  have s2: "timings_step E self surah (ts, c, w') v = (ts1, c1, snd ?d')"
    using s1 res by (auto simp: timings_step_eq split: option.splits if_splits)
  from Cons.IH[OF later, of ts1 c1] show ?case by (simp add: s1 s2)
qed

lemma chained_step:
  assumes "chained (ts, c, w)"
  shows "chained (timings_step E self surah (ts, c, w) v)"
proof (cases rule: timings_step_cases[of E self surah ts c w v])
  case skip
  with assms show ?thesis by (simp add: chained_def)
next
  case (append p d)
  let ?r = "\<lparr>ayah = v, start = c, duration = d, finish = c + d\<rparr>"
  have "finish ((ts @ [?r]) ! i) = start ((ts @ [?r]) ! Suc i)" if "Suc i < length (ts @ [?r])" for i
  proof (cases "Suc i < length ts")
    case True
    with assms show ?thesis by (simp add: chained_def nth_append)
  next
    case False
    with that have i: "Suc i = length ts" by simp
    then have ne: "ts \<noteq> []" by auto
    from i have "ts ! i = last ts" by (metis diff_Suc_1 last_conv_nth ne)
    with assms ne i show ?thesis by (simp add: chained_def nth_append)
  qed
  then show ?thesis by (simp add: append chained_def)
qed

lemma timings_loop_chained:
  "chained st \<Longrightarrow> chained (timings_loop E self surah vs st)"
  by (rule timings_loop_invariant) (auto intro: chained_step)

lemma ordered_step:
  fixes E :: "('a::{zero,plus,order}) env"
  assumes add: "\<forall>c d :: 'a. 0 \<le> c \<and> 0 < d \<longrightarrow> c \<le> c + d"
    and nonneg: "\<forall>p d. ffprobe E p = Some d \<longrightarrow> 0 \<le> d"
    and inv: "ordered (ts, c, w)"
  shows "ordered (timings_step E self surah (ts, c, w) v)"
proof (cases rule: timings_step_cases[of E self surah ts c w v])
  case skip
  with inv show ?thesis by (simp add: ordered_def)
next
  case (append p d)
  from append(2) nonneg have "0 \<le> d" by (simp add: get_audio_duration_def)
  with append(3) have d: "0 < d" by (simp add: order_less_le)
  from inv have c: "0 \<le> c" by (simp add: ordered_def)
  with d add have cd: "c \<le> c + d" by blast
  with c have cd0: "0 \<le> c + d" by (rule order_trans)
  let ?r = "\<lparr>ayah = v, start = c, duration = d, finish = c + d\<rparr>"
  have old: "0 < duration t \<and> 0 \<le> start t \<and> start t \<le> c + d" if "t \<in> set ts" for t
  proof -
    from inv that have "0 < duration t" "0 \<le> start t" "start t \<le> c" by (simp_all add: ordered_def)
    with cd show ?thesis by (auto intro: order_trans)
  qed
  have step: "start ((ts @ [?r]) ! i) \<le> start ((ts @ [?r]) ! Suc i)" if "Suc i < length (ts @ [?r])" for i
  proof (cases "Suc i < length ts")
    case True
    with inv show ?thesis by (simp add: ordered_def nth_append)
  next
    case False
    with that have i: "Suc i = length ts" by simp
    then have "ts ! i \<in> set ts" by simp
    with inv have "start (ts ! i) \<le> c" by (simp add: ordered_def)
    with i show ?thesis by (simp add: nth_append)
  qed
  from cd0 d c cd old step show ?thesis by (auto simp: append(4) ordered_def)
qed

subsection \<open>The timing resolver\<close>

text \<open>
  Claim C1. For a chapter whose lookup in the table gives the ayah count \<open>N\<close>, the resolver
  returns a list of at most \<open>N\<close> records, and each record's end offset is the start offset
  of the record after it, whatever the downloads and probes do. The statement holds for
  every number type, so it does not depend on how the additions round.
\<close>

theorem resolver_length_contiguous:
  fixes E :: "('a::{zero,plus}) env"
  assumes "py_index AYAH_COUNTS (surah - 1) = Inr N"
  shows "\<exists>ts w'. get_ayah_timings_from_reference E self w surah = (Inr ts, w') \<and>
           int (length ts) \<le> N \<and>
           (\<forall>i. Suc i < length ts \<longrightarrow> finish (ts ! i) = start (ts ! Suc i))"
proof -
  obtain ts c w' where loop: "timings_loop E self surah [1..N] ([], 0, w) = (ts, c, w')"
    by (cases "timings_loop E self surah [1..N] ([], 0, w)") auto
  have res: "get_ayah_timings_from_reference E self w surah = (Inr ts, w')"
    by (simp add: get_ayah_timings_from_reference_def assms loop)
  have "length (fst (timings_loop E self surah [1..N] ([], 0, w))) \<le> length [1..N]"
    using timings_loop_length[of E self surah "[1..N]" "([], 0, w)"] by simp
  then have len: "int (length ts) \<le> N"
    using ayah_count_bounds(1)[OF assms] by (simp add: loop)
  have "chained (timings_loop E self surah [1..N] ([]::'a timing list, 0, w))"
    by (rule timings_loop_chained) (simp add: chained_def)
  then have "\<forall>i. Suc i < length ts \<longrightarrow> finish (ts ! i) = start (ts ! Suc i)"
    by (simp add: loop chained_def)
  with res len show ?thesis by blast
qed

theorem resolver_length_contiguous_witness:
  "py_index AYAH_COUNTS (108 - 1) = Inr 3 \<and>
   (\<exists>ts w'. get_ayah_timings_from_reference demo_env demo_converter demo_world 108 = (Inr ts, w') \<and>
      int (length ts) \<le> 3 \<and>
      (\<forall>i. Suc i < length ts \<longrightarrow> finish (ts ! i) = start (ts ! Suc i)))"
proof -
  have h: "py_index AYAH_COUNTS (108 - 1) = Inr 3"
    by (simp add: py_index_def AYAH_COUNTS_def)
  show ?thesis
    using h resolver_length_contiguous [OF h, of demo_env demo_converter demo_world] by simp
qed

text \<open>
  Claim C2, as the code has it. The test \<^verbatim>\<open>if duration:\<close> lets every number but zero pass,
  a negative one too, and a sum of durations can be absorbed by a large cumulative time.
  When every probe that succeeds reports a duration of at least 0, every record of the
  result has a positive duration and a start offset that is not negative, and the start
  offsets of consecutive records do not decrease. The number type is arbitrary; of its
  addition the proof uses only that a positive number added to a number that is not negative
  does not give a smaller one, as it is for doubles under rounding.
\<close>

theorem nonnegative_probes_give_nondecreasing_offsets:
  fixes E :: "('a::{zero,plus,order}) env"
  assumes add: "\<forall>c d :: 'a. 0 \<le> c \<and> 0 < d \<longrightarrow> c \<le> c + d"
    and nonneg: "\<forall>p d. ffprobe E p = Some d \<longrightarrow> 0 \<le> d"
    and res: "get_ayah_timings_from_reference E self w surah = (Inr ts, w')"
  shows "(\<forall>t \<in> set ts. 0 < duration t \<and> 0 \<le> start t) \<and>
         (\<forall>i. Suc i < length ts \<longrightarrow> start (ts ! i) \<le> start (ts ! Suc i))"
proof -
  from res obtain N where N: "py_index AYAH_COUNTS (surah - 1) = Inr N"
    by (cases "py_index AYAH_COUNTS (surah - 1)") (auto simp: get_ayah_timings_from_reference_def)
  obtain c where loop: "timings_loop E self surah [1..N] ([], 0, w) = (ts, c, w')"
    using res by (auto simp: get_ayah_timings_from_reference_def N split: prod.splits)
  have "ordered (timings_loop E self surah [1..N] ([], 0, w))"
  proof (rule timings_loop_invariant)
    show "ordered ([], 0, w)" by (simp add: ordered_def)
  next
    fix ts0 :: "'a timing list" and c0 :: 'a and w0 :: "'a world" and v
    assume "ordered (ts0, c0, w0)"
    with add nonneg show "ordered (timings_step E self surah (ts0, c0, w0) v)"
      by (rule ordered_step)
  qed
  then show ?thesis by (auto simp: loop ordered_def)
qed

text \<open>Against claim C2 as stated. A probe that reports \<open>-1\<close> second for every reference
  recording gives records with negative durations and decreasing start offsets. And with
  probes that are all positive, a first duration that absorbs the next one gives two
  records with the same start offset.\<close>

theorem negative_or_absorbed_counterexample:
  "fst (get_ayah_timings_from_reference backwards_env demo_converter demo_world 108) =
     Inr [\<lparr>ayah = 1, start = 0, duration = - 1, finish = - 1\<rparr>,
          \<lparr>ayah = 2, start = - 1, duration = - 1, finish = - 2\<rparr>,
          \<lparr>ayah = 3, start = - 2, duration = - 1, finish = - 3\<rparr>] \<and>
   \<not> 0 < duration \<lparr>ayah = 1, start = 0, duration = - 1 :: real, finish = - 1\<rparr> \<and>
   \<not> 0 \<le> start \<lparr>ayah = 2, start = - 1 :: real, duration = - 1, finish = - 2\<rparr> \<and>
   \<not> start \<lparr>ayah = 1, start = 0, duration = - 1 :: real, finish = - 1\<rparr>
       < start \<lparr>ayah = 2, start = - 1 :: real, duration = - 1, finish = - 2\<rparr> \<and>
   fst (get_ayah_timings_from_reference absorbing_env demo_converter absorbing_world 108) =
     Inr [\<lparr>ayah = 1, start = 0, duration = \<infinity>, finish = \<infinity>\<rparr>,
          \<lparr>ayah = 2, start = \<infinity>, duration = 1, finish = \<infinity>\<rparr>,
          \<lparr>ayah = 3, start = \<infinity>, duration = 1, finish = \<infinity>\<rparr>] \<and>
   \<not> start \<lparr>ayah = 2, start = \<infinity> :: enat, duration = 1, finish = \<infinity>\<rparr>
       < start \<lparr>ayah = 3, start = \<infinity> :: enat, duration = 1, finish = \<infinity>\<rparr>"
proof -
  have a: "fst (get_ayah_timings_from_reference backwards_env demo_converter demo_world 108) =
     Inr [\<lparr>ayah = 1, start = 0, duration = - 1, finish = - 1\<rparr>,
          \<lparr>ayah = 2, start = - 1, duration = - 1, finish = - 2\<rparr>,
          \<lparr>ayah = 3, start = - 2, duration = - 1, finish = - 3\<rparr>]"
    by (simp add: get_ayah_timings_from_reference_def count_108 upto.simps
        timings_step_def download_reference_ayah_def get_audio_duration_def backwards_env_def
        demo_converter_def demo_world_def init_converter_def path_join_def Let_def
        fmt03_108 fmt03_1 fmt03_2 fmt03_3)
  have b: "fst (get_ayah_timings_from_reference absorbing_env demo_converter absorbing_world 108) =
     Inr [\<lparr>ayah = 1, start = 0, duration = \<infinity>, finish = \<infinity>\<rparr>,
          \<lparr>ayah = 2, start = \<infinity>, duration = 1, finish = \<infinity>\<rparr>,
          \<lparr>ayah = 3, start = \<infinity>, duration = 1, finish = \<infinity>\<rparr>]"
    by (simp add: get_ayah_timings_from_reference_def count_108 upto.simps
        timings_step_def download_reference_ayah_def get_audio_duration_def absorbing_env_def
        demo_converter_def absorbing_world_def init_converter_def path_join_def Let_def
        fmt03_108 fmt03_1 fmt03_2 fmt03_3)
  from a b show ?thesis by simp
qed

theorem nonnegative_probes_give_nondecreasing_offsets_witness:
  "ffprobe demo_env = (\<lambda>p. Some 2) \<and> (0::real) \<le> 2 \<and>
   fst (get_ayah_timings_from_reference demo_env demo_converter demo_world 108) =
     Inr [\<lparr>ayah = 1, start = 0, duration = 2, finish = 2\<rparr>,
          \<lparr>ayah = 2, start = 2, duration = 2, finish = 4\<rparr>,
          \<lparr>ayah = 3, start = 4, duration = 2, finish = 6\<rparr>] \<and>
   0 < duration \<lparr>ayah = 3, start = 4, duration = 2 :: real, finish = 6\<rparr> \<and>
   0 \<le> start \<lparr>ayah = 3, start = 4, duration = 2 :: real, finish = 6\<rparr> \<and>
   start \<lparr>ayah = 1, start = 0, duration = 2 :: real, finish = 2\<rparr>
     \<le> start \<lparr>ayah = 2, start = 2, duration = 2 :: real, finish = 4\<rparr> \<and>
   start \<lparr>ayah = 2, start = 2, duration = 2 :: real, finish = 4\<rparr>
     \<le> start \<lparr>ayah = 3, start = 4, duration = 2 :: real, finish = 6\<rparr> \<and>
   fst (get_ayah_timings_from_reference absorbing_env demo_converter absorbing_world 108) =
     Inr [\<lparr>ayah = 1, start = 0, duration = \<infinity>, finish = \<infinity>\<rparr>,
          \<lparr>ayah = 2, start = \<infinity>, duration = 1, finish = \<infinity>\<rparr>,
          \<lparr>ayah = 3, start = \<infinity>, duration = 1, finish = \<infinity>\<rparr>] \<and>
   0 < duration \<lparr>ayah = 3, start = \<infinity> :: enat, duration = 1, finish = \<infinity>\<rparr> \<and>
   start \<lparr>ayah = 2, start = \<infinity> :: enat, duration = 1, finish = \<infinity>\<rparr>
     \<le> start \<lparr>ayah = 3, start = \<infinity> :: enat, duration = 1, finish = \<infinity>\<rparr>"
proof -
  let ?ts = "[\<lparr>ayah = 1, start = 0, duration = 2, finish = 2\<rparr>,
              \<lparr>ayah = 2, start = 2, duration = 2, finish = 4\<rparr>,
              \<lparr>ayah = 3, start = 4, duration = 2 :: real, finish = 6\<rparr>]"
  let ?us = "[\<lparr>ayah = 1, start = 0, duration = \<infinity>, finish = \<infinity>\<rparr>,
              \<lparr>ayah = 2, start = \<infinity>, duration = 1, finish = \<infinity>\<rparr>,
              \<lparr>ayah = 3, start = \<infinity> :: enat, duration = 1, finish = \<infinity>\<rparr>]"
  have add: "\<forall>c d :: real. 0 \<le> c \<and> 0 < d \<longrightarrow> c \<le> c + d"
    by simp
  have probe: "ffprobe demo_env = (\<lambda>p. Some 2)"
    by (simp add: demo_env_def)
  then have nonneg: "\<forall>p d. ffprobe demo_env p = Some d \<longrightarrow> 0 \<le> d"
    by auto
  obtain w' where res: "get_ayah_timings_from_reference demo_env demo_converter demo_world 108 = (Inr ?ts, w')"
    by (simp add: get_ayah_timings_from_reference_def count_108 upto.simps
        timings_step_def download_reference_ayah_def get_audio_duration_def demo_env_def
        demo_converter_def demo_world_def init_converter_def path_join_def Let_def
        fmt03_108 fmt03_1 fmt03_2 fmt03_3)
  from nonnegative_probes_give_nondecreasing_offsets[OF add nonneg res]
  have r: "0 < duration (?ts ! 2) \<and> 0 \<le> start (?ts ! 2)"
    "start (?ts ! 0) \<le> start (?ts ! Suc 0)" "start (?ts ! 1) \<le> start (?ts ! Suc 1)"
    by simp_all
  have add': "\<forall>c d :: enat. 0 \<le> c \<and> 0 < d \<longrightarrow> c \<le> c + d"
    by simp
  have nonneg': "\<forall>p d. ffprobe absorbing_env p = Some d \<longrightarrow> 0 \<le> d"
    by simp
  obtain w'' where res': "get_ayah_timings_from_reference absorbing_env demo_converter absorbing_world 108
                            = (Inr ?us, w'')"
    by (simp add: get_ayah_timings_from_reference_def count_108 upto.simps
        timings_step_def download_reference_ayah_def get_audio_duration_def absorbing_env_def
        demo_converter_def absorbing_world_def init_converter_def path_join_def Let_def
        fmt03_108 fmt03_1 fmt03_2 fmt03_3)
  from nonnegative_probes_give_nondecreasing_offsets[OF add' nonneg' res']
  have e: "0 < duration (?us ! 2)" "start (?us ! 1) \<le> start (?us ! Suc 1)"
    by simp_all
  from probe res r res' e show ?thesis by simp
qed

text \<open>
  Claim C3. Let the download or the probe of ayah \<open>k\<close> fail when its turn comes, that is in
  the world \<open>w0\<close> that the rounds for the ayahs before it have left. Then that round appends
  no record and leaves the cumulative time as it is; the resolver returns exactly the records
  that the loop computes over the ayahs without \<open>k\<close>; and no record of the result has the
  number \<open>k\<close>.
\<close>

theorem failed_verse_is_omitted:
  fixes E :: "('a::{zero,plus}) env"
  assumes N: "py_index AYAH_COUNTS (surah - 1) = Inr N"
    and k: "1 \<le> k" "k \<le> N"
    and before: "timings_loop E self surah [1..k - 1] ([], 0, w) = (ts0, c0, w0)"
    and fails: "verse_fails E self w0 surah k"
  shows "timings_step E self surah (ts0, c0, w0) k =
           (ts0, c0, snd (download_reference_ayah E self w0 surah k)) \<and>
         fst (get_ayah_timings_from_reference E self w surah) =
           Inr (fst (timings_loop E self surah ([1..k - 1] @ [k + 1..N]) ([], 0, w))) \<and>
         (\<forall>ts. fst (get_ayah_timings_from_reference E self w surah) = Inr ts \<longrightarrow>
            k \<notin> ayah ` set ts)"
proof -
  let ?w1 = "snd (download_reference_ayah E self w0 surah k)"
  have step: "timings_step E self surah (ts0, c0, w0) k = (ts0, c0, ?w1)"
    using fails by (rule verse_fails_step)
  have N286: "N \<le> 286" using N by (rule ayah_count_bounds)
  have same_cache: "\<forall>v \<in> set [k + 1..N].
      (reference_path self surah v \<in> files ?w1) = (reference_path self surah v \<in> files w0)"
  proof
    fix v assume "v \<in> set [k + 1..N]"
    then have v: "k < v" "v \<le> N" by simp_all
    then have "reference_path self surah v \<noteq> reference_path self surah k"
      using reference_path_inj[of v k self surah] k N286 by auto
    then show "(reference_path self surah v \<in> files ?w1) = (reference_path self surah v \<in> files w0)"
      using download_files_cases[of E self w0 surah k] by auto
  qed
  have split: "[1..N] = [1..k - 1] @ k # [k + 1..N]"
    using k by (rule upto_split3)
  have with_k: "timings_loop E self surah [1..N] ([], 0, w) =
                  timings_loop E self surah [k + 1..N] (ts0, c0, ?w1)"
    by (simp add: split timings_loop_append before step)
  have without_k: "timings_loop E self surah ([1..k - 1] @ [k + 1..N]) ([], 0, w) =
                     timings_loop E self surah [k + 1..N] (ts0, c0, w0)"
    by (simp add: timings_loop_append before)
  have eq: "fst (timings_loop E self surah [1..N] ([], 0, w)) =
            fst (timings_loop E self surah ([1..k - 1] @ [k + 1..N]) ([], 0, w))"
    using timings_loop_same_cache[OF same_cache, of E ts0 c0]
    by (simp add: with_k without_k)
  have res: "fst (get_ayah_timings_from_reference E self w surah) =
             Inr (fst (timings_loop E self surah [1..N] ([], 0, w)))"
    by (simp add: get_ayah_timings_from_reference_def N split: prod.splits)
  have "ayah ` set (fst (timings_loop E self surah ([1..k - 1] @ [k + 1..N]) ([], 0, w)))
          \<subseteq> set ([1..k - 1] @ [k + 1..N])"
    using timings_loop_ayahs[of E self surah "[1..k - 1] @ [k + 1..N]" "[]" 0 w] by simp
  then have "k \<notin> ayah ` set (fst (timings_loop E self surah ([1..k - 1] @ [k + 1..N]) ([], 0, w)))"
    by auto
  with step res eq show ?thesis by simp
qed

theorem failed_verse_is_omitted_witness:
  "py_index AYAH_COUNTS (108 - 1) = Inr 3 \<and> (1::int) \<le> 2 \<and> (2::int) \<le> 3 \<and>
   verse_fails gap_env demo_converter
     (demo_world\<lparr>files := insert [''everyayah_reference_48kbps'', ''108001.mp3''] (files demo_world),
                 fetched := [''https://everyayah.com/data/Parhizgar_48kbps/108001.mp3'']\<rparr>) 108 2 \<and>
   fst (get_ayah_timings_from_reference gap_env demo_converter demo_world 108) =
     Inr [\<lparr>ayah = 1, start = 0, duration = 2, finish = 2\<rparr>,
          \<lparr>ayah = 3, start = 2, duration = 2, finish = 4\<rparr>]"
proof -
  let ?w0 = "demo_world\<lparr>files := insert [''everyayah_reference_48kbps'', ''108001.mp3''] (files demo_world),
                 fetched := [''https://everyayah.com/data/Parhizgar_48kbps/108001.mp3'']\<rparr>"
  have N: "py_index AYAH_COUNTS (108 - 1) = Inr 3" by (simp add: count_108)
  have before: "timings_loop gap_env demo_converter 108 [1..2 - 1] ([], 0, demo_world) =
                  ([\<lparr>ayah = 1, start = 0, duration = 2, finish = 2\<rparr>], 2, ?w0)"
    by (simp add: upto.simps timings_step_def download_reference_ayah_def get_audio_duration_def
        gap_env_def demo_converter_def demo_world_def init_converter_def path_join_def Let_def
        fmt03_108 fmt03_1)
  have fails: "verse_fails gap_env demo_converter ?w0 108 2"
    by (simp add: verse_fails_def download_reference_ayah_def get_audio_duration_def
        gap_env_def demo_converter_def demo_world_def init_converter_def path_join_def Let_def
        fmt03_108 fmt03_2)
  have without: "fst (timings_loop gap_env demo_converter 108 ([1..2 - 1] @ [2 + 1..3]) ([], 0, demo_world)) =
                 [\<lparr>ayah = 1, start = 0, duration = 2, finish = 2\<rparr>,
                  \<lparr>ayah = 3, start = 2, duration = 2, finish = 4\<rparr>]"
    by (simp add: upto.simps timings_step_def download_reference_ayah_def get_audio_duration_def
        gap_env_def demo_converter_def demo_world_def init_converter_def path_join_def Let_def
        fmt03_108 fmt03_1 fmt03_3)
  from failed_verse_is_omitted[OF N _ _ before fails] fails N without
  show ?thesis by simp
qed

text \<open>
  Claim C4. When the reference recordings of the ayahs 1, 2 and 3 of a surah are available
  and their probes report 3.0, 2.5 and 4.0 seconds, the first three records of the resolver's
  result are ayah 1 from 0 to 3.0, ayah 2 from 3.0 to 5.5 and ayah 3 from 5.5 to 9.5.
\<close>

theorem three_durations_example:
  fixes E :: "real env"
  assumes N: "py_index AYAH_COUNTS (surah - 1) = Inr N"
    and avail: "\<forall>v \<in> {1, 2, 3}. reference_path self surah v \<in> files w \<or>
                  urlretrieve E (reference_url surah v) (reference_path self surah v)"
    and p1: "get_audio_duration E (reference_path self surah 1) = Some 3.0"
    and p2: "get_audio_duration E (reference_path self surah 2) = Some 2.5"
    and p3: "get_audio_duration E (reference_path self surah 3) = Some 4.0"
  shows "\<exists>ts w'. get_ayah_timings_from_reference E self w surah = (Inr ts, w') \<and>
           take 3 ts = [\<lparr>ayah = 1, start = 0, duration = 3.0, finish = 3.0\<rparr>,
                        \<lparr>ayah = 2, start = 3.0, duration = 2.5, finish = 5.5\<rparr>,
                        \<lparr>ayah = 3, start = 5.5, duration = 4.0, finish = 9.5\<rparr>]"
proof -
  let ?r1 = "\<lparr>ayah = 1, start = 0, duration = 3.0, finish = 3.0 :: real\<rparr>"
  let ?r2 = "\<lparr>ayah = 2, start = 3.0, duration = 2.5, finish = 5.5 :: real\<rparr>"
  let ?r3 = "\<lparr>ayah = 3, start = 5.5, duration = 4.0, finish = 9.5 :: real\<rparr>"
  let ?w1 = "snd (download_reference_ayah E self w surah 1)"
  let ?w2 = "snd (download_reference_ayah E self ?w1 surah 2)"
  let ?w3 = "snd (download_reference_ayah E self ?w2 surah 3)"
  have N3: "3 \<le> N" using N by (rule ayah_count_bounds)
  then have range: "[1..N] = 1 # 2 # 3 # [4..N]"
    by (simp add: upto_rec1[of 1 N] upto_rec1[of 2 N] upto_rec1[of 3 N])
  have mono1: "files w \<subseteq> files ?w1" and mono2: "files ?w1 \<subseteq> files ?w2"
    by (rule download_files_mono)+
  have s1: "timings_step E self surah ([], 0, w) 1 = ([?r1], 3, ?w1)"
    using timings_step_success[where self = self and surah = surah and v = 1 and w = w and E = E
        and d = 3 and ts = "[]" and c = 0] avail p1 by simp
  have a2: "reference_path self surah 2 \<in> files ?w1 \<or>
            urlretrieve E (reference_url surah 2) (reference_path self surah 2)"
    using avail mono1 by auto
  have s2: "timings_step E self surah ([?r1], 3, ?w1) 2 = ([?r1, ?r2], 5.5, ?w2)"
    using timings_step_success[OF a2, where d = "2.5" and ts = "[?r1]" and c = 3] p2 by simp
  have a3: "reference_path self surah 3 \<in> files ?w2 \<or>
            urlretrieve E (reference_url surah 3) (reference_path self surah 3)"
    using avail mono1 mono2 by auto
  have s3: "timings_step E self surah ([?r1, ?r2], 5.5, ?w2) 3 = ([?r1, ?r2, ?r3], 9.5, ?w3)"
    using timings_step_success[OF a3, where d = 4 and ts = "[?r1, ?r2]" and c = "5.5"] p3 by simp
  have loop: "timings_loop E self surah [1..N] ([], 0, w) =
              timings_loop E self surah [4..N] ([?r1, ?r2, ?r3], 9.5, ?w3)"
    by (simp only: range timings_loop.simps s1 s2 s3)
  obtain more where more:
    "fst (timings_loop E self surah [4..N] ([?r1, ?r2, ?r3], 9.5, ?w3)) = [?r1, ?r2, ?r3] @ more"
    using timings_loop_prefix by blast
  obtain ts c w' where res: "timings_loop E self surah [1..N] ([], 0, w) = (ts, c, w')"
    by (cases "timings_loop E self surah [1..N] ([], 0, w)") auto
  have "ts = fst (timings_loop E self surah [1..N] ([], 0, w))" by (simp add: res)
  also have "\<dots> = [?r1, ?r2, ?r3] @ more" by (simp only: loop more)
  finally have "take 3 ts = [?r1, ?r2, ?r3]" by simp
  moreover have "get_ayah_timings_from_reference E self w surah = (Inr ts, w')"
    by (simp add: get_ayah_timings_from_reference_def N res)
  ultimately show ?thesis by blast
qed

theorem three_durations_example_witness:
  "py_index AYAH_COUNTS (108 - 1) = Inr 3 \<and>
   urlretrieve three_env (reference_url 108 1) (reference_path demo_converter 108 1) \<and>
   urlretrieve three_env (reference_url 108 2) (reference_path demo_converter 108 2) \<and>
   urlretrieve three_env (reference_url 108 3) (reference_path demo_converter 108 3) \<and>
   get_audio_duration three_env (reference_path demo_converter 108 1) = Some 3.0 \<and>
   get_audio_duration three_env (reference_path demo_converter 108 2) = Some 2.5 \<and>
   get_audio_duration three_env (reference_path demo_converter 108 3) = Some 4.0 \<and>
   (\<exists>ts w'. get_ayah_timings_from_reference three_env demo_converter demo_world 108 = (Inr ts, w') \<and>
      take 3 ts = [\<lparr>ayah = 1, start = 0, duration = 3.0, finish = 3.0\<rparr>,
                   \<lparr>ayah = 2, start = 3.0, duration = 2.5, finish = 5.5\<rparr>,
                   \<lparr>ayah = 3, start = 5.5, duration = 4.0, finish = 9.5\<rparr>])"
proof -
  have N: "py_index AYAH_COUNTS (108 - 1) = Inr 3" by (simp add: count_108)
  have u: "urlretrieve three_env url p" for url p
    by (simp add: three_env_def)
  then have avail: "\<forall>v \<in> {1, 2, 3}. reference_path demo_converter 108 v \<in> files demo_world \<or>
       urlretrieve three_env (reference_url 108 v) (reference_path demo_converter 108 v)"
    by simp
  from three_durations_example[OF N avail three_env_probe] N u three_env_probe
  show ?thesis by simp
qed

text \<open>
  Claim C7. When the reference recording of an ayah is already at its cache path, the
  download returns that path and leaves the world as it is: nothing is fetched. Hence the
  resolver, run on a surah whose reference recordings are all cached, fetches nothing.
\<close>

theorem cached_reference_no_fetch:
  fixes E :: "('a::{zero,plus}) env"
  shows "(reference_path self surah v \<in> files w \<longrightarrow>
            download_reference_ayah E self w surah v = (Some (reference_path self surah v), w) \<and>
            fetched (snd (download_reference_ayah E self w surah v)) = fetched w) \<and>
         (py_index AYAH_COUNTS (surah - 1) = Inr N \<and>
          (\<forall>v \<in> {1..N}. reference_path self surah v \<in> files w) \<longrightarrow>
            snd (get_ayah_timings_from_reference E self w surah) = w \<and>
            fetched (snd (get_ayah_timings_from_reference E self w surah)) = fetched w)"
proof -
  have "snd (get_ayah_timings_from_reference E self w surah) = w"
    if N: "py_index AYAH_COUNTS (surah - 1) = Inr N"
      and c: "\<forall>v \<in> {1..N}. reference_path self surah v \<in> files w"
  proof -
    from c have "snd (snd (timings_loop E self surah [1..N] ([], 0, w))) = w"
      by (intro timings_loop_cached) simp
    then show ?thesis
      by (auto simp: get_ayah_timings_from_reference_def N split: prod.splits)
  qed
  then show ?thesis by (simp add: download_cached)
qed

theorem cached_reference_no_fetch_witness:
  "reference_path demo_converter 108 1 \<in> files cached_world \<and>
   reference_path demo_converter 108 2 \<in> files cached_world \<and>
   reference_path demo_converter 108 3 \<in> files cached_world \<and>
   download_reference_ayah demo_env demo_converter cached_world 108 1 =
     (Some [''everyayah_reference_48kbps'', ''108001.mp3''], cached_world) \<and>
   py_index AYAH_COUNTS (108 - 1) = Inr 3 \<and>
   snd (get_ayah_timings_from_reference demo_env demo_converter cached_world 108) = cached_world \<and>
   fetched (snd (get_ayah_timings_from_reference demo_env demo_converter cached_world 108)) = []"
proof -
  have h: "reference_path demo_converter 108 1 \<in> files cached_world"
    "reference_path demo_converter 108 2 \<in> files cached_world"
    "reference_path demo_converter 108 3 \<in> files cached_world"
    by (simp_all add: reference_path_demo cached_world_def)
  have hN: "py_index AYAH_COUNTS (108 - 1) = Inr 3"
    by (simp add: count_108)
  have hall: "\<forall>v \<in> {1..3}. reference_path demo_converter 108 v \<in> files cached_world"
  proof
    fix v :: int
    assume "v \<in> {1..3}"
    then consider "v = 1" | "v = 2" | "v = 3" using upto_1_3 by blast
    then show "reference_path demo_converter 108 v \<in> files cached_world"
      by cases (simp_all add: h)
  qed
  have f: "fetched cached_world = []" by (simp add: cached_world_def)
  from cached_reference_no_fetch
         [where E = demo_env and self = demo_converter and surah = 108 and v = 1
            and w = cached_world and N = 3] h hN hall f
  show ?thesis by (simp add: reference_path_demo)
qed

text \<open>
  Claim C9. A probe that succeeds with zero seconds has the effect of a probe that fails:
  the round of the loop appends no record and leaves the cumulative time as it is. No record
  of the resolver's result has duration zero.
\<close>

theorem zero_duration_is_skipped:
  fixes E :: "('a::{zero,plus}) env"
  shows "(download_reference_ayah E self w surah v = (Some p, w1) \<and> get_audio_duration E p = Some 0 \<longrightarrow>
            timings_step E self surah (ts, c, w) v = (ts, c, w1) \<and>
            timings_step (E\<lparr>ffprobe := (ffprobe E)(p := None)\<rparr>) self surah (ts, c, w) v = (ts, c, w1)) \<and>
         (get_ayah_timings_from_reference E self w surah = (Inr out, w2) \<longrightarrow>
            (\<forall>t \<in> set out. duration t \<noteq> 0))"
proof -
  have a: "timings_step E self surah (ts, c, w) v = (ts, c, w1)"
    if "download_reference_ayah E self w surah v = (Some p, w1)" "get_audio_duration E p = Some 0"
    using that by (simp add: timings_step_def)
  have b: "timings_step (E\<lparr>ffprobe := (ffprobe E)(p := None)\<rparr>) self surah (ts, c, w) v = (ts, c, w1)"
    if "download_reference_ayah E self w surah v = (Some p, w1)"
    using that by (simp add: timings_step_def download_ffprobe_update get_audio_duration_def)
  have c: "\<forall>t \<in> set out. duration t \<noteq> 0"
    if r: "get_ayah_timings_from_reference E self w surah = (Inr out, w2)"
  proof -
    from r obtain N where N: "py_index AYAH_COUNTS (surah - 1) = Inr N"
      by (cases "py_index AYAH_COUNTS (surah - 1)") (auto simp: get_ayah_timings_from_reference_def)
    with r have "out = fst (timings_loop E self surah [1..N] ([], 0, w))"
      by (auto simp: get_ayah_timings_from_reference_def split: prod.splits)
    then show ?thesis using timings_loop_nonzero[of "[]" E self surah "[1..N]" 0 w] by simp
  qed
  from a b c show ?thesis by blast
qed

theorem zero_duration_is_skipped_witness:
  "download_reference_ayah zero_env demo_converter demo_world 108 2 =
     (Some [''everyayah_reference_48kbps'', ''108002.mp3''],
      demo_world\<lparr>files := insert [''everyayah_reference_48kbps'', ''108002.mp3''] (files demo_world),
                  fetched := [''https://everyayah.com/data/Parhizgar_48kbps/108002.mp3'']\<rparr>) \<and>
   get_audio_duration zero_env [''everyayah_reference_48kbps'', ''108002.mp3''] = Some 0 \<and>
   timings_step zero_env demo_converter 108 ([], 0, demo_world) 2 =
     ([], 0,
      demo_world\<lparr>files := insert [''everyayah_reference_48kbps'', ''108002.mp3''] (files demo_world),
                  fetched := [''https://everyayah.com/data/Parhizgar_48kbps/108002.mp3'']\<rparr>) \<and>
   fst (get_ayah_timings_from_reference zero_env demo_converter demo_world 108) =
     Inr [\<lparr>ayah = 1, start = 0, duration = 2, finish = 2\<rparr>,
          \<lparr>ayah = 3, start = 2, duration = 2, finish = 4\<rparr>] \<and>
   duration \<lparr>ayah = 1, start = 0, duration = 2 :: real, finish = 2\<rparr> \<noteq> 0 \<and>
   duration \<lparr>ayah = 3, start = 2, duration = 2 :: real, finish = 4\<rparr> \<noteq> 0"
proof -
  let ?p = "[''everyayah_reference_48kbps'', ''108002.mp3'']"
  let ?w1 = "demo_world\<lparr>files := insert ?p (files demo_world),
                         fetched := [''https://everyayah.com/data/Parhizgar_48kbps/108002.mp3'']\<rparr>"
  let ?out = "[\<lparr>ayah = 1, start = 0, duration = 2, finish = 2\<rparr>,
               \<lparr>ayah = 3, start = 2, duration = (2::real), finish = 4\<rparr>]"
  have d: "download_reference_ayah zero_env demo_converter demo_world 108 2 = (Some ?p, ?w1)"
    by (simp add: download_reference_ayah_def zero_env_def demo_converter_def demo_world_def
        init_converter_def path_join_def Let_def fmt03_108 fmt03_2)
  have g: "get_audio_duration zero_env ?p = Some 0"
    by (simp add: get_audio_duration_def zero_env_def)
  obtain w2 where r: "get_ayah_timings_from_reference zero_env demo_converter demo_world 108 = (Inr ?out, w2)"
    by (simp add: get_ayah_timings_from_reference_def count_108 upto.simps
        timings_step_def download_reference_ayah_def get_audio_duration_def zero_env_def
        demo_converter_def demo_world_def init_converter_def path_join_def Let_def
        fmt03_108 fmt03_1 fmt03_2 fmt03_3)
  from zero_duration_is_skipped
         [where E = zero_env and self = demo_converter and w = demo_world and surah = 108
            and v = 2 and p = ?p and ?w1.0 = ?w1 and ts = "[]" and c = 0 and out = ?out and ?w2.0 = w2]
       d g r
  show ?thesis by simp
qed

subsection \<open>The segment extractor\<close>

lemma extract_ayah_invoked:
  "\<exists>more. invoked (snd (extract_ayah E self surah inp w t)) =
            invoked w @ copy_cmd inp t (output_file_of self surah (ayah t)) # more \<and>
          set more \<subseteq> {reencode_cmd inp t (output_file_of self surah (ayah t))}"
proof (cases "subprocess_run E (copy_cmd inp t (output_file_of self surah (ayah t)))")
  case Completed
  then show ?thesis by (simp add: extract_ayah_def run_cmd_def Let_def)
next
  case CalledProcessError
  then show ?thesis
    by (simp add: extract_ayah_def run_cmd_def Let_def split: run_result.splits)
next
  case OtherException
  then show ?thesis by (simp add: extract_ayah_def run_cmd_def Let_def)
qed

text \<open>
  Claim C5. The claim holds of the code when the copy command exits with a non-zero status,
  and fails when the copy command cannot be run at all. In the first run below running the
  copy command of ayah 1 raises an exception that is not a \<^verbatim>\<open>CalledProcessError\<close>:
  nothing is retried, the exception leaves \<^verbatim>\<open>split_surah\<close>, and the ayahs 2 and 3 are
  never tried. In the second run the copy command exits with a non-zero status and it is the
  re-encoding command that raises that exception: there each of the three ayahs gets its
  copy command and its re-encoding command, and \<^verbatim>\<open>split_surah\<close> returns \<open>True\<close>.
\<close>

theorem copy_invocation_error_aborts:
  "subprocess_run broken_env (copy_cmd demo_input (demo_timing 1 0) [''Parhizgar_128kbps'', ''108001.mp3''])
     = OtherException \<and>
   fst (split_surah broken_env demo_converter cached_world 108) = Inl SubprocessError \<and>
   invoked (snd (split_surah broken_env demo_converter cached_world 108)) =
     [copy_cmd demo_input (demo_timing 1 0) [''Parhizgar_128kbps'', ''108001.mp3'']] \<and>
   subprocess_run reencode_broken_env
     (copy_cmd demo_input (demo_timing 1 0) [''Parhizgar_128kbps'', ''108001.mp3'']) = CalledProcessError \<and>
   subprocess_run reencode_broken_env
     (reencode_cmd demo_input (demo_timing 1 0) [''Parhizgar_128kbps'', ''108001.mp3'']) = OtherException \<and>
   fst (split_surah reencode_broken_env demo_converter cached_world 108) = Inr True \<and>
   invoked (snd (split_surah reencode_broken_env demo_converter cached_world 108)) =
     [copy_cmd demo_input (demo_timing 1 0) [''Parhizgar_128kbps'', ''108001.mp3''],
      reencode_cmd demo_input (demo_timing 1 0) [''Parhizgar_128kbps'', ''108001.mp3''],
      copy_cmd demo_input (demo_timing 2 2) [''Parhizgar_128kbps'', ''108002.mp3''],
      reencode_cmd demo_input (demo_timing 2 2) [''Parhizgar_128kbps'', ''108002.mp3''],
      copy_cmd demo_input (demo_timing 3 4) [''Parhizgar_128kbps'', ''108003.mp3''],
      reencode_cmd demo_input (demo_timing 3 4) [''Parhizgar_128kbps'', ''108003.mp3'']]"
proof -
  have i: "path_join (input_dir demo_converter) (fmt03 108 @ ''.mp3'') = demo_input"
    by (simp add: demo_converter_def init_converter_def path_join_def fmt03_108 demo_input_def)
  have m: "demo_input \<in> files cached_world"
    by (simp add: cached_world_def demo_input_def)
  have a: "ayah (demo_timing 1 0) = 1" "ayah (demo_timing 2 2) = 2" "ayah (demo_timing 3 4) = 3"
    by (simp_all add: demo_timing_def)
  have n: "invoked cached_world = []" by (simp add: cached_world_def)
  have t1: "get_ayah_timings_from_reference broken_env demo_converter cached_world 108 =
     (Inr [demo_timing 1 0, demo_timing 2 2, demo_timing 3 4], cached_world)"
    by (rule cached_timings) (simp add: broken_env_def)
  have x: "subprocess_run broken_env cmd = OtherException" for cmd
    by (simp add: broken_env_def)
  have e1: "extract_ayah broken_env demo_converter 108 demo_input cached_world (demo_timing 1 0) =
           (Inl SubprocessError,
            cached_world\<lparr>invoked := [copy_cmd demo_input (demo_timing 1 0) [''Parhizgar_128kbps'', ''108001.mp3'']]\<rparr>)"
    by (simp add: extract_ayah_def run_cmd_def Let_def x a output_file_demo n broken_env_def)
  have s1: "split_surah broken_env demo_converter cached_world 108 =
           (Inl SubprocessError,
            cached_world\<lparr>invoked := [copy_cmd demo_input (demo_timing 1 0) [''Parhizgar_128kbps'', ''108001.mp3'']]\<rparr>)"
    by (simp add: split_surah_def Let_def i m t1 e1)
  have t2: "get_ayah_timings_from_reference reencode_broken_env demo_converter cached_world 108 =
     (Inr [demo_timing 1 0, demo_timing 2 2, demo_timing 3 4], cached_world)"
    by (rule cached_timings) (simp add: reencode_broken_env_def)
  have c: "subprocess_run reencode_broken_env (copy_cmd inp t out) = CalledProcessError" for inp t out
    by (simp add: reencode_broken_env_def copy_cmd_def)
  have r: "subprocess_run reencode_broken_env (reencode_cmd inp t out) = OtherException" for inp t out
    by (simp add: reencode_broken_env_def reencode_cmd_def)
  have l: "leaves_output reencode_broken_env cmd = False" for cmd
    by (simp add: reencode_broken_env_def)
  have e2: "extract_ayah reencode_broken_env demo_converter 108 demo_input w t =
           (Inr (), w\<lparr>invoked := invoked w @
              [copy_cmd demo_input t (output_file_of demo_converter 108 (ayah t)),
               reencode_cmd demo_input t (output_file_of demo_converter 108 (ayah t))]\<rparr>)" for w t
    by (simp add: extract_ayah_def run_cmd_def Let_def c r l)
  have s2: "split_surah reencode_broken_env demo_converter cached_world 108 =
           (Inr True,
            cached_world\<lparr>invoked :=
              [copy_cmd demo_input (demo_timing 1 0) [''Parhizgar_128kbps'', ''108001.mp3''],
               reencode_cmd demo_input (demo_timing 1 0) [''Parhizgar_128kbps'', ''108001.mp3''],
               copy_cmd demo_input (demo_timing 2 2) [''Parhizgar_128kbps'', ''108002.mp3''],
               reencode_cmd demo_input (demo_timing 2 2) [''Parhizgar_128kbps'', ''108002.mp3''],
               copy_cmd demo_input (demo_timing 3 4) [''Parhizgar_128kbps'', ''108003.mp3''],
               reencode_cmd demo_input (demo_timing 3 4) [''Parhizgar_128kbps'', ''108003.mp3'']]\<rparr>)"
    by (simp add: split_surah_def Let_def i m t2 e2 a output_file_demo n)
  show ?thesis by (simp add: s1 s2 x c r)
qed

text \<open>
  Claim C8. For a surah and an ayah between 0 and 999 the output file is the output
  directory joined with the three decimal digits of the surah, the three decimal digits of
  the ayah and \<^verbatim>\<open>.mp3\<close>. Both commands have \<^verbatim>\<open>-y\<close> as their first option and that file
  as their last argument, and the extraction of a record runs no other command.
\<close>

theorem output_path_and_overwrite:
  fixes E :: "'a env"
  assumes "0 \<le> surah" "surah < 1000" "0 \<le> ayah t" "ayah t < 1000"
  shows "output_file_of self surah (ayah t) =
           path_join (output_dir self)
             ([digit_char (nat surah div 100), digit_char (nat surah div 10 mod 10),
               digit_char (nat surah mod 10)] @
              [digit_char (nat (ayah t) div 100), digit_char (nat (ayah t) div 10 mod 10),
               digit_char (nat (ayah t) mod 10)] @ ''.mp3'') \<and>
         copy_cmd inp t (output_file_of self surah (ayah t)) ! 1 = Str ''-y'' \<and>
         last (copy_cmd inp t (output_file_of self surah (ayah t))) =
           PathArg (output_file_of self surah (ayah t)) \<and>
         reencode_cmd inp t (output_file_of self surah (ayah t)) ! 1 = Str ''-y'' \<and>
         last (reencode_cmd inp t (output_file_of self surah (ayah t))) =
           PathArg (output_file_of self surah (ayah t)) \<and>
         (\<exists>more. invoked (snd (extract_ayah E self surah inp w t)) =
                    invoked w @ copy_cmd inp t (output_file_of self surah (ayah t)) # more \<and>
                  set more \<subseteq> {reencode_cmd inp t (output_file_of self surah (ayah t))})"
proof -
  have "output_file_of self surah (ayah t) =
           path_join (output_dir self)
             ([digit_char (nat surah div 100), digit_char (nat surah div 10 mod 10),
               digit_char (nat surah mod 10)] @
              [digit_char (nat (ayah t) div 100), digit_char (nat (ayah t) div 10 mod 10),
               digit_char (nat (ayah t) mod 10)] @ ''.mp3'')"
    using assms by (simp add: output_file_of_def fmt03_3digits)
  moreover have "copy_cmd inp t (output_file_of self surah (ayah t)) ! 1 = Str ''-y''"
    "last (copy_cmd inp t (output_file_of self surah (ayah t))) =
           PathArg (output_file_of self surah (ayah t))"
    "reencode_cmd inp t (output_file_of self surah (ayah t)) ! 1 = Str ''-y''"
    "last (reencode_cmd inp t (output_file_of self surah (ayah t))) =
           PathArg (output_file_of self surah (ayah t))"
    by (simp_all add: copy_cmd_def reencode_cmd_def)
  ultimately show ?thesis using extract_ayah_invoked[of E self surah inp w t] by blast
qed

theorem output_path_and_overwrite_witness:
  "(0::int) \<le> 108 \<and> (108::int) < 1000 \<and> 0 \<le> ayah (demo_timing 2 2) \<and> ayah (demo_timing 2 2) < 1000 \<and>
   output_file_of demo_converter 108 (ayah (demo_timing 2 2)) = [''Parhizgar_128kbps'', ''108002.mp3''] \<and>
   copy_cmd demo_input (demo_timing 2 2) (output_file_of demo_converter 108 (ayah (demo_timing 2 2))) ! 1
     = Str ''-y'' \<and>
   reencode_cmd demo_input (demo_timing 2 2) (output_file_of demo_converter 108 (ayah (demo_timing 2 2))) ! 1
     = Str ''-y''"
proof -
  have a: "ayah (demo_timing 2 2) = 2" by (simp add: demo_timing_def)
  have h: "(0::int) \<le> 108" "(108::int) < 1000" "0 \<le> ayah (demo_timing 2 2)" "ayah (demo_timing 2 2) < 1000"
    by (simp_all add: a)
  note T = output_path_and_overwrite[OF h, where self = demo_converter and inp = demo_input
      and E = demo_env and w = demo_world]
  from T[THEN conjunct1]
  have p: "output_file_of demo_converter 108 (ayah (demo_timing 2 2)) = [''Parhizgar_128kbps'', ''108002.mp3'']"
    by (simp add: a demo_converter_def init_converter_def path_join_def digit_char_def)
  show ?thesis
    by (intro conjI; (rule h p T[THEN conjunct2, THEN conjunct1]
          T[THEN conjunct2, THEN conjunct2, THEN conjunct2, THEN conjunct1]))
qed

subsection \<open>The orchestrator\<close>

lemma resolver_world:
  fixes E :: "('a::{zero,plus}) env"
  shows "invoked (snd (get_ayah_timings_from_reference E self w surah)) = invoked w \<and>
         files (snd (get_ayah_timings_from_reference E self w surah))
           \<subseteq> files w \<union> range (reference_path self surah)"
proof (cases "py_index AYAH_COUNTS (surah - 1)")
  case (Inl e)
  then show ?thesis by (simp add: get_ayah_timings_from_reference_def)
next
  case (Inr N)
  let ?P = "\<lambda>st :: 'a timing list \<times> 'a \<times> 'a world.
              invoked (snd (snd st)) = invoked w \<and>
              files (snd (snd st)) \<subseteq> files w \<union> range (reference_path self surah)"
  have "?P (timings_loop E self surah [1..N] ([], 0, w))"
  proof (rule timings_loop_invariant)
    show "?P ([], 0, w)" by simp
  next
    fix ts c w0 v
    assume "?P (ts, c, w0)"
    then show "?P (timings_step E self surah (ts, c, w0) v)"
      using download_files_cases[of E self w0 surah v]
      by (auto simp: timings_step_world download_invoked)
  qed
  then show ?thesis
    by (auto simp: get_ayah_timings_from_reference_def Inr split: prod.splits)
qed

lemma convert_loop_append:
  "convert_loop E self w (xs @ ys) =
     (case convert_loop E self w xs of
        (Inl e, w') \<Rightarrow> (Inl e, w')
      | (Inr u, w') \<Rightarrow> convert_loop E self w' ys)"
  by (induction xs arbitrary: w) (auto split: prod.splits sum.splits)

text \<open>
  Claim C6. When the recording of a surah is missing, or the resolver returns no record for
  it, \<^verbatim>\<open>split_surah\<close> returns \<open>False\<close> without running a command: the only files it
  may have added are reference recordings, and none at all when the recording is missing.
  The loop of \<^verbatim>\<open>convert_all\<close> then goes on with the surahs that remain.
\<close>

theorem skipped_chapter:
  fixes E :: "('a::{zero,plus}) env"
  assumes skip: "path_join (input_dir self) (fmt03 surah @ ''.mp3'') \<notin> files w \<or>
                 fst (get_ayah_timings_from_reference E self w surah) = Inr []"
  shows "\<exists>w1. split_surah E self w surah = (Inr False, w1) \<and>
           invoked w1 = invoked w \<and>
           files w1 \<subseteq> files w \<union> range (reference_path self surah) \<and>
           (path_join (input_dir self) (fmt03 surah @ ''.mp3'') \<notin> files w \<longrightarrow> w1 = w) \<and>
           (\<forall>rest. convert_loop E self w (surah # rest) = convert_loop E self w1 rest) \<and>
           (\<forall>s e w0. s \<le> surah \<and> surah \<le> e \<and> convert_loop E self w0 [s..surah - 1] = (Inr (), w) \<longrightarrow>
              convert_all E self w0 s e = convert_loop E self w1 [surah + 1..e])"
proof -
  let ?inp = "path_join (input_dir self) (fmt03 surah @ ''.mp3'')"
  let ?r = "get_ayah_timings_from_reference E self w surah"
  define w1 where "w1 = (if ?inp \<notin> files w then w else snd ?r)"
  have split: "split_surah E self w surah = (Inr False, w1)"
  proof (cases "?inp \<notin> files w")
    case True
    then show ?thesis by (simp add: split_surah_def w1_def)
  next
    case False
    with skip obtain wr where r: "?r = (Inr [], wr)" by (cases ?r) auto
    with False show ?thesis by (simp add: split_surah_def w1_def Let_def)
  qed
  have inv: "invoked w1 = invoked w" and fil: "files w1 \<subseteq> files w \<union> range (reference_path self surah)"
    using resolver_world[of E self w surah] by (auto simp: w1_def)
  have miss: "?inp \<notin> files w \<longrightarrow> w1 = w" by (simp add: w1_def)
  have next_one: "convert_loop E self w (surah # rest) = convert_loop E self w1 rest" for rest
    by (simp add: split)
  have "convert_all E self w0 s e = convert_loop E self w1 [surah + 1..e]"
    if "s \<le> surah" "surah \<le> e" "convert_loop E self w0 [s..surah - 1] = (Inr (), w)" for s e w0
  proof -
    from that(1,2) have "[s..e] = [s..surah - 1] @ surah # [surah + 1..e]"
      by (rule upto_split3)
    then show ?thesis
      by (simp add: convert_all_def convert_loop_append that(3) split)
  qed
  with split inv fil miss next_one show ?thesis by blast
qed

theorem skipped_chapter_witness:
  "path_join (input_dir demo_converter) (fmt03 107 @ ''.mp3'') \<notin> files cached_world \<and>
   split_surah demo_env demo_converter cached_world 107 = (Inr False, cached_world) \<and>
   convert_all demo_env demo_converter cached_world 107 108 =
     convert_loop demo_env demo_converter cached_world [107 + 1..108] \<and>
   fst (get_ayah_timings_from_reference mute_env demo_converter cached_world 108) = Inr [] \<and>
   (\<exists>w1. split_surah mute_env demo_converter cached_world 108 = (Inr False, w1) \<and>
      invoked w1 = invoked cached_world)"
proof -
  have m: "path_join (input_dir demo_converter) (fmt03 107 @ ''.mp3'') \<notin> files cached_world"
    by (simp add: demo_converter_def init_converter_def path_join_def fmt03_107 cached_world_def)
  then have h: "path_join (input_dir demo_converter) (fmt03 107 @ ''.mp3'') \<notin> files cached_world \<or>
                 fst (get_ayah_timings_from_reference demo_env demo_converter cached_world 107) = Inr []"
    by (rule disjI1)
  have before: "convert_loop demo_env demo_converter cached_world [107..107 - 1] = (Inr (), cached_world)"
    by simp
  from skipped_chapter[OF h] obtain w1 where
    s: "split_surah demo_env demo_converter cached_world 107 = (Inr False, w1)"
    and u: "path_join (input_dir demo_converter) (fmt03 107 @ ''.mp3'') \<notin> files cached_world \<longrightarrow> w1 = cached_world"
    and c: "\<forall>s e w0. s \<le> 107 \<and> 107 \<le> e \<and>
              convert_loop demo_env demo_converter w0 [s..107 - 1] = (Inr (), cached_world) \<longrightarrow>
              convert_all demo_env demo_converter w0 s e = convert_loop demo_env demo_converter w1 [107 + 1..e]"
    by blast
  from u m have w1: "w1 = cached_world" by simp
  from c[rule_format, of 107 108 cached_world] before
  have a: "convert_all demo_env demo_converter cached_world 107 108 =
          convert_loop demo_env demo_converter w1 [107 + 1..108]" by simp
  have e: "fst (get_ayah_timings_from_reference mute_env demo_converter cached_world 108) = Inr []"
    by (simp add: get_ayah_timings_from_reference_def count_108 upto.simps
        timings_step_def download_reference_ayah_def get_audio_duration_def mute_env_def
        demo_converter_def cached_world_def init_converter_def path_join_def Let_def
        fmt03_108 fmt03_1 fmt03_2 fmt03_3)
  then have h2: "path_join (input_dir demo_converter) (fmt03 108 @ ''.mp3'') \<notin> files cached_world \<or>
                 fst (get_ayah_timings_from_reference mute_env demo_converter cached_world 108) = Inr []"
    by (rule disjI2)
  from skipped_chapter[OF h2]
  have b: "\<exists>w1. split_surah mute_env demo_converter cached_world 108 = (Inr False, w1) \<and>
      invoked w1 = invoked cached_world" by blast
  from m s w1 a e b show ?thesis by simp
qed

end
